theory Spec2Isabelle
  imports Complex_Main
begin

section \<open>JavaScript values as the server sees them\<close>

text \<open>
  The server of \<^verbatim>\<open>broadcast-server.js\<close> reads properties of whatever
  \<^verbatim>\<open>JSON.parse\<close> returns, stores some of them, compares them and tests
  them for truthiness. The values \<^verbatim>\<open>JSON.parse\<close> can return are modelled by
  \<open>json\<close>; a number is the value of the double (\<^verbatim>\<open>JSON.parse\<close> yields no
  NaN, and \<open>0\<close> and \<open>-0\<close> are the same number for every operation used here). An object is
  the list of its own properties, each key once. \<^verbatim>\<open>undefined\<close> is not a JSON
  value: a JavaScript value is a \<open>json option\<close>, with \<open>None\<close> for
  \<^verbatim>\<open>undefined\<close>.
\<close>

datatype jsnumber = Finite rat | PosInfinity | NegInfinity

datatype json =
    JNull
  | JBool bool
  | JNum jsnumber
  | JStr string
  | JArr "json list"
  | JObj "(string \<times> json) list"

type_synonym jsval = "json option"

datatype error = TypeError

text \<open>
  Property access \<^verbatim>\<open>data.k\<close>. Reading a property of \<^verbatim>\<open>null\<close>
  throws a TypeError. The server reads only \<^verbatim>\<open>type\<close>,
  \<^verbatim>\<open>username\<close>, \<^verbatim>\<open>recipient\<close> and \<^verbatim>\<open>content\<close>,
  which no prototype of a boolean, number, string or array defines, so there the result is
  \<^verbatim>\<open>undefined\<close>.
\<close>

fun get_prop :: "json \<Rightarrow> string \<Rightarrow> error + jsval" where
  "get_prop JNull k = Inl TypeError"
| "get_prop (JObj kvs) k = Inr (map_of kvs k)"
| "get_prop (JBool b) k = Inr None"
| "get_prop (JNum n) k = Inr None"
| "get_prop (JStr s) k = Inr None"
| "get_prop (JArr xs) k = Inr None"

text \<open>
  \<^verbatim>\<open>a === b\<close>, and the SameValueZero comparison of
  \<^verbatim>\<open>Array.prototype.includes\<close>: the two differ only on NaN. Primitives are
  compared by value. Objects and arrays are compared by reference, and every comparison of
  the server is between a value of the message being handled and either a literal or a value
  kept from an earlier message, so two objects compared are never the same object.
\<close>

fun js_equal :: "jsval \<Rightarrow> jsval \<Rightarrow> bool" where
  "js_equal (Some (JArr xs)) b = False"
| "js_equal (Some (JObj kvs)) b = False"
| "js_equal a b = (a = b)"

text \<open>Truthiness, as tested by \<^verbatim>\<open>||\<close>.\<close>

fun truthy :: "jsval \<Rightarrow> bool" where
  "truthy None = False"
| "truthy (Some JNull) = False"
| "truthy (Some (JBool b)) = b"
| "truthy (Some (JNum n)) = (n \<noteq> Finite 0)"
| "truthy (Some (JStr s)) = (s \<noteq> [])"
| "truthy (Some (JArr xs)) = True"
| "truthy (Some (JObj kvs)) = True"

definition js_includes :: "jsval list \<Rightarrow> jsval \<Rightarrow> bool" where
  "js_includes vs x = list_ex (\<lambda>e. js_equal e x) vs"

text \<open>
  \<^verbatim>\<open>xs.slice(start)\<close>: a negative start counts from the end and is clamped
  at the beginning of the array.
\<close>

definition slice :: "int \<Rightarrow> 'a list \<Rightarrow> 'a list" where
  "slice start xs =
     (let len = int (length xs);
          k = (if start < 0 then max (len + start) 0 else min start len)
      in drop (nat k) xs)"

section \<open>The server's state\<close>

text \<open>
  A WebSocket object is identified by a number. \<^verbatim>\<open>this.clients\<close> is a Set and
  \<^verbatim>\<open>this.usernames\<close> a Map; both iterate in insertion order, so they are lists:
  the clients without repetition, the usernames as the list of the Map's entries.
\<close>

type_synonym ws = nat

datatype ready_state = CONNECTING | OPEN | CLOSING | CLOSED

record chat_message =
  msg_type :: string
  sender :: jsval
  content :: jsval
  timestamp :: string

text \<open>
  The message objects of \<^verbatim>\<open>broadcast\<close> and
  \<^verbatim>\<open>handlePrivateMessage\<close> are records; the field \<open>msg_type\<close> is the
  property \<^verbatim>\<open>type\<close>. An envelope is what the server passes to \<^verbatim>\<open>JSON.stringify\<close> before
  \<^verbatim>\<open>send\<close>. (\<^verbatim>\<open>JSON.stringify\<close> leaves out a property whose value
  is \<^verbatim>\<open>undefined\<close>.)
\<close>

datatype envelope =
    AuthRequest
  | AuthError string
  | AuthSuccess string "chat_message list"
  | Chat chat_message

type_synonym sends = "(ws \<times> envelope) list"

record server =
  clients :: "ws list"
  messageHistory :: "chat_message list"
  usernames :: "(ws \<times> jsval) list"

definition new_server :: server where
  "new_server = \<lparr>clients = [], messageHistory = [], usernames = []\<rparr>"

definition set_add :: "ws \<Rightarrow> ws list \<Rightarrow> ws list" where
  "set_add x xs = (if x \<in> set xs then xs else xs @ [x])"

definition set_delete :: "ws \<Rightarrow> ws list \<Rightarrow> ws list" where
  "set_delete x xs = removeAll x xs"

fun map_set :: "ws \<Rightarrow> jsval \<Rightarrow> (ws \<times> jsval) list \<Rightarrow> (ws \<times> jsval) list" where
  "map_set k v [] = [(k, v)]"
| "map_set k v ((k', v') # es) =
     (if k' = k then (k, v) # es else (k', v') # map_set k v es)"

definition map_get :: "(ws \<times> jsval) list \<Rightarrow> ws \<Rightarrow> jsval" where
  "map_get es k = (case map_of es k of None \<Rightarrow> None | Some v \<Rightarrow> v)"

section \<open>The handlers of \<^verbatim>\<open>BroadcastServer\<close>\<close>

text \<open>
  Every handler returns the calls of \<^verbatim>\<open>send\<close> it makes, in order, each with
  the socket it is called on, and the new state. \<^verbatim>\<open>JSON.parse\<close>, the clock
  (\<^verbatim>\<open>new Date().toISOString()\<close>) and the \<^verbatim>\<open>readyState\<close> of the
  sockets are inputs. What the library does with a call of \<^verbatim>\<open>send\<close> is not
  part of the model: a delivery is a call of \<^verbatim>\<open>send\<close>.
\<close>

definition handleConnection :: "ws \<Rightarrow> server \<Rightarrow> sends \<times> server" where
  "handleConnection w st = ([(w, AuthRequest)], st\<lparr>clients := set_add w (clients st)\<rparr>)"

definition on_close :: "ws \<Rightarrow> server \<Rightarrow> sends \<times> server" where
  "on_close w st = ([], st\<lparr>clients := set_delete w (clients st)\<rparr>)"

definition on_error :: "ws \<Rightarrow> server \<Rightarrow> sends \<times> server" where
  "on_error w st = ([], st\<lparr>clients := set_delete w (clients st)\<rparr>)"

definition parseMessage :: "(string \<Rightarrow> json option) \<Rightarrow> string \<Rightarrow> json" where
  "parseMessage parse message =
     (case parse message of
        Some v \<Rightarrow> v
      | None \<Rightarrow> JObj [(''type'', JStr ''message''), (''content'', JStr message)])"

definition handleAuth :: "ws \<Rightarrow> jsval \<Rightarrow> server \<Rightarrow> sends \<times> server" where
  "handleAuth w username st =
     (if js_includes (map snd (usernames st)) username
      then ([(w, AuthError ''Username already taken'')], st)
      else ([(w, AuthSuccess ''Authentication successful'' (slice (- 10) (messageHistory st)))],
            st\<lparr>usernames := map_set w username (usernames st)\<rparr>))"

text \<open>
  \<^verbatim>\<open>entries.find(([_, name]) => name === data.recipient)\<close>: the callback reads
  \<^verbatim>\<open>data.recipient\<close> at each entry it visits.
\<close>

fun find_entry :: "json \<Rightarrow> (ws \<times> jsval) list \<Rightarrow> error + (ws \<times> jsval) option" where
  "find_entry data [] = Inr None"
| "find_entry data ((k, name) # es) =
     (case get_prop data ''recipient'' of
        Inl e \<Rightarrow> Inl e
      | Inr r \<Rightarrow> if js_equal name r then Inr (Some (k, name)) else find_entry data es)"

definition handlePrivateMessage ::
  "ws \<Rightarrow> json \<Rightarrow> string \<Rightarrow> server \<Rightarrow> error + sends \<times> server" where
  "handlePrivateMessage w data now st =
     (let sender = map_get (usernames st) w in
      case find_entry data (usernames st) of
        Inl e \<Rightarrow> Inl e
      | Inr None \<Rightarrow> Inr ([], st)
      | Inr (Some (recipient, name)) \<Rightarrow>
          (case get_prop data ''content'' of
             Inl e \<Rightarrow> Inl e
           | Inr c \<Rightarrow>
               let message = \<lparr>msg_type = ''private'', sender = sender, content = c,
                              timestamp = now\<rparr>
               in Inr ([(recipient, Chat message), (w, Chat message)], st)))"

text \<open>The loop \<^verbatim>\<open>this.clients.forEach\<close> of \<^verbatim>\<open>broadcast\<close>.\<close>

fun forEach_client ::
  "(ws \<Rightarrow> ready_state) \<Rightarrow> ws \<Rightarrow> chat_message \<Rightarrow> ws list \<Rightarrow> sends" where
  "forEach_client readyState sndr m [] = []"
| "forEach_client readyState sndr m (client # cs) =
     (if client \<noteq> sndr \<and> readyState client = OPEN
      then (client, Chat m) # forEach_client readyState sndr m cs
      else forEach_client readyState sndr m cs)"

definition sender_name :: "server \<Rightarrow> ws \<Rightarrow> jsval" where
  "sender_name st w =
     (let u = map_get (usernames st) w in if truthy u then u else Some (JStr ''Anonymous''))"

definition broadcastMessage :: "server \<Rightarrow> string \<Rightarrow> jsval \<Rightarrow> ws \<Rightarrow> chat_message" where
  "broadcastMessage st now message w =
     \<lparr>msg_type = ''broadcast'', sender = sender_name st w, content = message,
      timestamp = now\<rparr>"

definition history_push :: "chat_message \<Rightarrow> chat_message list \<Rightarrow> chat_message list" where
  "history_push m h = (let h1 = h @ [m] in if length h1 > 100 then tl h1 else h1)"

definition broadcast ::
  "(ws \<Rightarrow> ready_state) \<Rightarrow> string \<Rightarrow> jsval \<Rightarrow> ws \<Rightarrow> server \<Rightarrow> sends \<times> server" where
  "broadcast readyState now message w st =
     (let m = broadcastMessage st now message w
      in (forEach_client readyState w m (clients st),
          st\<lparr>messageHistory := history_push m (messageHistory st)\<rparr>))"

text \<open>The \<^verbatim>\<open>message\<close> callback registered by \<^verbatim>\<open>handleConnection\<close>.\<close>

definition on_message ::
  "(string \<Rightarrow> json option) \<Rightarrow> (ws \<Rightarrow> ready_state) \<Rightarrow> string \<Rightarrow> ws \<Rightarrow> string \<Rightarrow> server
     \<Rightarrow> error + sends \<times> server" where
  "on_message parse readyState now w payload st =
     (let data = parseMessage parse payload in
      case get_prop data ''type'' of
        Inl e \<Rightarrow> Inl e
      | Inr t \<Rightarrow>
          if js_equal t (Some (JStr ''auth''))
          then (case get_prop data ''username'' of
                  Inl e \<Rightarrow> Inl e
                | Inr u \<Rightarrow> Inr (handleAuth w u st))
          else if js_equal t (Some (JStr ''private''))
          then handlePrivateMessage w data now st
          else (case get_prop data ''content'' of
                  Inl e \<Rightarrow> Inl e
                | Inr c \<Rightarrow> Inr (broadcast readyState now c w st)))"

section \<open>Events\<close>

text \<open>
  The event loop runs one callback at a time. A \<open>Message\<close> event carries the payload,
  the time at which the handler runs and the \<^verbatim>\<open>readyState\<close> of every socket
  at that time. An exception thrown by a handler ends the run. The library raises
  \<open>Message\<close>, \<open>Close\<close> and \<open>Error\<close> only for a socket that has connected; \<open>run\<close>
  accepts every list of events, those of the executions among them.
\<close>

datatype event =
    Connection ws
  | Message ws string string "ws \<Rightarrow> ready_state"
  | Close ws
  | Error ws

fun step :: "(string \<Rightarrow> json option) \<Rightarrow> server \<Rightarrow> event \<Rightarrow> error + sends \<times> server" where
  "step parse st (Connection w) = Inr (handleConnection w st)"
| "step parse st (Message w payload now readyState) =
     on_message parse readyState now w payload st"
| "step parse st (Close w) = Inr (on_close w st)"
| "step parse st (Error w) = Inr (on_error w st)"

fun run :: "(string \<Rightarrow> json option) \<Rightarrow> server \<Rightarrow> event list \<Rightarrow> error + sends \<times> server" where
  "run parse st [] = Inr ([], st)"
| "run parse st (e # es) =
     (case step parse st e of
        Inl err \<Rightarrow> Inl err
      | Inr (out, st') \<Rightarrow>
          (case run parse st' es of
             Inl err \<Rightarrow> Inl err
           | Inr (out', st'') \<Rightarrow> Inr (out @ out', st'')))"

section \<open>Auxiliary notions\<close>

text \<open>
  The messages broadcast one after the other, each given by the sending socket, the content,
  the time and the \<^verbatim>\<open>readyState\<close> of the sockets: the state after all of them,
  and the message object that \<^verbatim>\<open>broadcast\<close> builds for one of them.
\<close>

fun broadcasts ::
  "server \<Rightarrow> (ws \<times> jsval \<times> string \<times> (ws \<Rightarrow> ready_state)) list \<Rightarrow> server" where
  "broadcasts st [] = st"
| "broadcasts st ((w, message, now, readyState) # bs) =
     broadcasts (snd (broadcast readyState now message w st)) bs"

definition message_of ::
  "server \<Rightarrow> ws \<times> jsval \<times> string \<times> (ws \<Rightarrow> ready_state) \<Rightarrow> chat_message" where
  "message_of st b = (case b of (w, message, now, readyState) \<Rightarrow> broadcastMessage st now message w)"

text \<open>No two entries of \<^verbatim>\<open>usernames\<close> hold values that \<open>js_equal\<close> identifies.\<close>

fun names_distinct :: "(ws \<times> jsval) list \<Rightarrow> bool" where
  "names_distinct [] = True"
| "names_distinct ((k, v) # es) = (\<not> js_includes (map snd es) v \<and> names_distinct es)"

text \<open>
  What every handler preserves: the Map has each key once, no name twice, and the history
  holds at most 100 messages.
\<close>

definition server_inv :: "server \<Rightarrow> bool" where
  "server_inv st \<longleftrightarrow>
     distinct (map fst (usernames st)) \<and> names_distinct (usernames st)
     \<and> length (messageHistory st) \<le> 100"

text \<open>
  The condition under which the specification lets \<open>Authenticate(session, name)\<close> fail:
  some other live session currently holds the name.
\<close>

definition spec_name_taken :: "server \<Rightarrow> ws \<Rightarrow> jsval \<Rightarrow> bool" where
  "spec_name_taken st w name =
     list_ex (\<lambda>c. c \<noteq> w \<and> map_get (usernames st) c = name) (clients st)"

section \<open>Inputs of the examples\<close>

text \<open>
  \<^verbatim>\<open>JSON.parse\<close> on the payloads of the examples: five envelopes, the JSON
  texts \<^verbatim>\<open>null\<close> and \<^verbatim>\<open>42\<close>, and text that is not JSON.
\<close>

definition example_parse :: "string \<Rightarrow> json option" where
  \<open>example_parse s =
     (if s = ''{"type":"auth","username":"alice"}''
      then Some (JObj [(''type'', JStr ''auth''), (''username'', JStr ''alice'')])
      else if s = ''{"type":"auth","username":"bob"}''
      then Some (JObj [(''type'', JStr ''auth''), (''username'', JStr ''bob'')])
      else if s = ''{"type":"private","recipient":"bob","content":"secret"}''
      then Some (JObj [(''type'', JStr ''private''), (''recipient'', JStr ''bob''),
                       (''content'', JStr ''secret'')])
      else if s = ''{"type":"private","recipient":"carol","content":"psst"}''
      then Some (JObj [(''type'', JStr ''private''), (''recipient'', JStr ''carol''),
                       (''content'', JStr ''psst'')])
      else if s = ''{"type":"broadcast","content":"hello everyone"}''
      then Some (JObj [(''type'', JStr ''broadcast''), (''content'', JStr ''hello everyone'')])
      else if s = ''null'' then Some JNull
      else if s = ''42'' then Some (JNum (Finite 42))
      else None)\<close>

definition auth_alice :: string where
  \<open>auth_alice = ''{"type":"auth","username":"alice"}''\<close>

definition auth_bob :: string where
  \<open>auth_bob = ''{"type":"auth","username":"bob"}''\<close>

definition private_bob :: string where
  \<open>private_bob = ''{"type":"private","recipient":"bob","content":"secret"}''\<close>

definition private_carol :: string where
  \<open>private_carol = ''{"type":"private","recipient":"carol","content":"psst"}''\<close>

definition all_open :: "ws \<Rightarrow> ready_state" where
  "all_open w = OPEN"

definition closing_2 :: "ws \<Rightarrow> ready_state" where
  "closing_2 w = (if w = 2 then CLOSING else OPEN)"

definition closed_2 :: "ws \<Rightarrow> ready_state" where
  "closed_2 w = (if w = 2 then CLOSED else OPEN)"

text \<open>The \<open>i\<close>-th of a series of broadcasts of one unauthenticated session, and its message.\<close>

definition numbered :: "nat \<Rightarrow> ws \<times> jsval \<times> string \<times> (ws \<Rightarrow> ready_state)" where
  "numbered i = (1, Some (JNum (Finite (of_nat i))), ''t'', all_open)"

definition numbered_message :: "nat \<Rightarrow> chat_message" where
  "numbered_message i =
     \<lparr>msg_type = ''broadcast'', sender = Some (JStr ''Anonymous''),
      content = Some (JNum (Finite (of_nat i))), timestamp = ''t''\<rparr>"

text \<open>
  Two states of the examples: session 1 is \<open>alice\<close> and session 2 has not authenticated;
  sessions 1 and 2 are \<open>alice\<close> and \<open>bob\<close> and session 3 has not authenticated.
\<close>

definition alice_and_guest :: server where
  "alice_and_guest =
     \<lparr>clients = [1, 2], messageHistory = [], usernames = [(1, Some (JStr ''alice''))]\<rparr>"

definition three_sessions :: server where
  "three_sessions =
     \<lparr>clients = [1, 2, 3], messageHistory = [],
      usernames = [(1, Some (JStr ''alice'')), (2, Some (JStr ''bob''))]\<rparr>"

section \<open>Basic facts\<close>

lemmas ex_defs = example_parse_def auth_alice_def auth_bob_def private_bob_def private_carol_def
  new_server_def handleConnection_def set_add_def set_delete_def on_close_def on_error_def
  on_message_def parseMessage_def handleAuth_def handlePrivateMessage_def js_includes_def
  slice_def broadcast_def broadcastMessage_def sender_name_def map_get_def history_push_def
  Let_def all_open_def

lemma js_equal_iff: "js_equal a b \<longleftrightarrow> a = b \<and> js_equal a a"
  by (cases "(a, b)" rule: js_equal.cases) auto

lemma js_equal_sym: "js_equal a b = js_equal b a"
  using js_equal_iff [of a b] js_equal_iff [of b a] by auto

lemma js_equal_eq: "js_equal a b \<Longrightarrow> a = b"
  using js_equal_iff [of a b] by simp

lemma js_equal_str [simp]: "js_equal (Some (JStr n)) b \<longleftrightarrow> b = Some (JStr n)"
  by auto

lemma js_includes_iff: "js_includes vs x \<longleftrightarrow> (\<exists>e \<in> set vs. js_equal e x)"
  by (simp add: js_includes_def list_ex_iff)

lemma map_set_keys: "fst ` set (map_set k v es) = insert k (fst ` set es)"
  by (induction k v es rule: map_set.induct) auto

lemma map_set_distinct: "distinct (map fst es) \<Longrightarrow> distinct (map fst (map_set k v es))"
proof (induction k v es rule: map_set.induct)
  case (1 k v)
  then show ?case by simp
next
  case (2 k v k' v' es)
  then show ?case
    using map_set_keys [of k v es] by auto
qed

lemma map_set_values: "set (map snd (map_set k v es)) \<subseteq> insert v (set (map snd es))"
  by (induction k v es rule: map_set.induct) auto

lemma map_of_map_set: "map_of (map_set k v es) = (map_of es)(k \<mapsto> v)"
  by (induction k v es rule: map_set.induct) (auto simp: fun_eq_iff)

lemma map_get_map_set: "map_get (map_set k v es) k' = (if k' = k then v else map_get es k')"
  by (simp add: map_get_def map_of_map_set)

lemma map_get_mem: "map_get es a = Some v \<Longrightarrow> (a, Some v) \<in> set es"
  by (auto simp: map_get_def split: option.splits dest: map_of_SomeD)

lemma held_name_included:
  "map_get es a = Some (JStr n) \<Longrightarrow> js_includes (map snd es) (Some (JStr n))"
  by (force simp: js_includes_iff dest: map_get_mem)

lemma handleAuth_taken:
  "js_includes (map snd (usernames st)) u \<Longrightarrow>
   handleAuth w u st = ([(w, AuthError ''Username already taken'')], st)"
  by (simp add: handleAuth_def)

lemma handleAuth_free:
  "\<not> js_includes (map snd (usernames st)) u \<Longrightarrow>
   handleAuth w u st
     = ([(w, AuthSuccess ''Authentication successful'' (slice (- 10) (messageHistory st)))],
        st\<lparr>usernames := map_set w u (usernames st)\<rparr>)"
  by (simp add: handleAuth_def)

lemma handlePrivateMessage_state:
  "handlePrivateMessage w data now st = Inr (out, st') \<Longrightarrow> st' = st"
  by (auto simp: handlePrivateMessage_def Let_def split: sum.splits option.splits prod.splits)

section \<open>What the handlers preserve\<close>

lemma names_distinct_map_set:
  "names_distinct es \<Longrightarrow> \<not> js_includes (map snd es) v \<Longrightarrow> names_distinct (map_set k v es)"
proof (induction es)
  case Nil
  then show ?case by (simp add: js_includes_def)
next
  case (Cons e es)
  obtain k' v' where e: "e = (k', v')" by (cases e)
  show ?case
  proof (cases "k' = k")
    case True
    with Cons.prems show ?thesis by (simp add: e js_includes_iff)
  next
    case False
    have nv: "\<not> js_equal v' v" and nes: "\<not> js_includes (map snd es) v"
      using Cons.prems(2) by (auto simp: e js_includes_iff)
    have d: "\<not> js_includes (map snd es) v'" and nd: "names_distinct es"
      using Cons.prems(1) by (simp_all add: e)
    have "\<not> js_includes (map snd (map_set k v es)) v'"
    proof
      assume "js_includes (map snd (map_set k v es)) v'"
      then obtain x where x: "x \<in> set (map snd (map_set k v es))" and xe: "js_equal x v'"
        by (auto simp: js_includes_iff)
      from x map_set_values [of k v es] have "x = v \<or> x \<in> set (map snd es)" by auto
      then show False
      proof
        assume "x = v"
        with xe nv show False by (simp add: js_equal_sym)
      next
        assume "x \<in> set (map snd es)"
        with xe d show False by (auto simp: js_includes_iff)
      qed
    qed
    moreover have "names_distinct (map_set k v es)"
      using Cons.IH nd nes by blast
    ultimately show ?thesis using False by (simp add: e)
  qed
qed

lemma names_distinct_unique:
  "names_distinct es \<Longrightarrow> (a, v) \<in> set es \<Longrightarrow> (b, v') \<in> set es \<Longrightarrow> js_equal v v' \<Longrightarrow> a = b"
proof (induction es)
  case Nil
  then show ?case by simp
next
  case (Cons e es)
  obtain k x where e: "e = (k, x)" by (cases e)
  have d: "\<not> js_includes (map snd es) x" and nd: "names_distinct es"
    using Cons.prems(1) by (simp_all add: e)
  consider "(a, v) = (k, x)" "(b, v') = (k, x)" | "(a, v) = (k, x)" "(b, v') \<in> set es"
    | "(a, v) \<in> set es" "(b, v') = (k, x)" | "(a, v) \<in> set es" "(b, v') \<in> set es"
    using Cons.prems(2,3) by (auto simp: e)
  then show ?case
  proof cases
    case 1
    then show ?thesis by simp
  next
    case 2
    then have "js_includes (map snd es) x"
      using Cons.prems(4) by (force simp: js_includes_iff js_equal_sym)
    with d show ?thesis by simp
  next
    case 3
    then have "js_includes (map snd es) x"
      using Cons.prems(4) by (force simp: js_includes_iff)
    with d show ?thesis by simp
  next
    case 4
    then show ?thesis using Cons.IH nd Cons.prems(4) by blast
  qed
qed

lemma history_push_length: "length h \<le> 100 \<Longrightarrow> length (history_push m h) \<le> 100"
  by (simp add: history_push_def Let_def)

lemma handleAuth_inv: "server_inv st \<Longrightarrow> server_inv (snd (handleAuth w u st))"
  by (simp add: handleAuth_def server_inv_def map_set_distinct names_distinct_map_set)

lemma broadcast_inv: "server_inv st \<Longrightarrow> server_inv (snd (broadcast rs now c w st))"
  by (simp add: broadcast_def Let_def server_inv_def history_push_length)

lemma on_message_inv:
  assumes "server_inv st" and "on_message parse rs now w payload st = Inr (out, st')"
  shows "server_inv st'"
proof -
  let ?data = "parseMessage parse payload"
  from assms(2) obtain t where t: "get_prop ?data ''type'' = Inr t"
    by (auto simp: on_message_def Let_def split: sum.splits)
  consider (is_auth) "js_equal t (Some (JStr ''auth''))"
    | (is_private) "\<not> js_equal t (Some (JStr ''auth''))" "js_equal t (Some (JStr ''private''))"
    | (is_other) "\<not> js_equal t (Some (JStr ''auth''))" "\<not> js_equal t (Some (JStr ''private''))"
    by blast
  then show ?thesis
  proof cases
    case is_auth
    with assms(2) t obtain u where "handleAuth w u st = (out, st')"
      by (auto simp: on_message_def Let_def split: sum.splits)
    then have "st' = snd (handleAuth w u st)" by (metis snd_conv)
    with assms(1) show ?thesis by (simp add: handleAuth_inv)
  next
    case is_private
    with assms(2) t have "handlePrivateMessage w ?data now st = Inr (out, st')"
      by (auto simp: on_message_def Let_def split: sum.splits)
    then have "st' = st" by (rule handlePrivateMessage_state)
    with assms(1) show ?thesis by simp
  next
    case is_other
    with assms(2) t obtain c where "broadcast rs now c w st = (out, st')"
      by (auto simp: on_message_def Let_def split: sum.splits)
    then have "st' = snd (broadcast rs now c w st)" by (metis snd_conv)
    with assms(1) show ?thesis by (simp add: broadcast_inv)
  qed
qed

lemma step_inv:
  assumes "server_inv st" and "step parse st e = Inr (out, st')"
  shows "server_inv st'"
proof (cases e)
  case (Connection w)
  with assms show ?thesis by (auto simp: handleConnection_def server_inv_def)
next
  case (Message w payload now rs)
  with assms show ?thesis by (auto dest: on_message_inv)
next
  case (Close w)
  with assms show ?thesis by (auto simp: on_close_def server_inv_def)
next
  case (Error w)
  with assms show ?thesis by (auto simp: on_error_def server_inv_def)
qed

lemma run_inv: "server_inv st \<Longrightarrow> run parse st es = Inr (out, st') \<Longrightarrow> server_inv st'"
proof (induction es arbitrary: st out)
  case Nil
  then show ?case by simp
next
  case (Cons e es)
  then show ?case
    by (auto split: sum.splits prod.splits dest: step_inv)
qed

lemma new_server_inv: "server_inv new_server"
  by (simp add: server_inv_def new_server_def)

section \<open>Broadcast delivery\<close>

lemma forEach_client_eq:
  "forEach_client rs w m cs = map (\<lambda>c. (c, Chat m)) (filter (\<lambda>c. c \<noteq> w \<and> rs c = OPEN) cs)"
  by (induction cs) auto

text \<open>
  Claim C7. A broadcast is sent to exactly the live sessions (the members of
  \<^verbatim>\<open>clients\<close>) other than the sender whose connection is in state OPEN, each
  receiving the envelope built for the message: a session whose connection is closing or
  closed gets nothing, and neither does the sender.
\<close>

theorem broadcast_recipients:
  "(c, e) \<in> set (fst (broadcast rs now message w st)) \<longleftrightarrow>
     c \<in> set (clients st) \<and> c \<noteq> w \<and> rs c = OPEN \<and> e = Chat (broadcastMessage st now message w)"
  by (auto simp: broadcast_def Let_def forEach_client_eq)

theorem broadcast_recipients_witness:
  "(3, Chat (broadcastMessage \<lparr>clients = [1, 2, 3], messageHistory = [], usernames = []\<rparr>
               ''t'' (Some (JStr ''hi'')) 1))
     \<in> set (fst (broadcast closing_2 ''t'' (Some (JStr ''hi'')) 1
                   \<lparr>clients = [1, 2, 3], messageHistory = [], usernames = []\<rparr>))
   \<and> (2, Chat (broadcastMessage \<lparr>clients = [1, 2, 3], messageHistory = [], usernames = []\<rparr>
               ''t'' (Some (JStr ''hi'')) 1))
     \<notin> set (fst (broadcast closing_2 ''t'' (Some (JStr ''hi'')) 1
                   \<lparr>clients = [1, 2, 3], messageHistory = [], usernames = []\<rparr>))
   \<and> (1, Chat (broadcastMessage \<lparr>clients = [1, 2, 3], messageHistory = [], usernames = []\<rparr>
               ''t'' (Some (JStr ''hi'')) 1))
     \<notin> set (fst (broadcast closing_2 ''t'' (Some (JStr ''hi'')) 1
                   \<lparr>clients = [1, 2, 3], messageHistory = [], usernames = []\<rparr>))"
  using broadcast_recipients [of _ _ closing_2 "''t''" "Some (JStr ''hi'')" 1
      "\<lparr>clients = [1, 2, 3], messageHistory = [], usernames = []\<rparr>"]
  by (simp add: closing_2_def)

text \<open>
  Claim C10. A session that was admitted and never authenticated (it is in
  \<^verbatim>\<open>clients\<close> and has no entry in \<^verbatim>\<open>usernames\<close>) and whose
  connection is OPEN receives the envelope of every broadcast of another session.
\<close>

theorem unauthenticated_receives_broadcast:
  assumes "c \<in> set (clients st)" and "c \<noteq> w" and "rs c = OPEN"
    and "map_of (usernames st) c = None"
  shows "(c, Chat (broadcastMessage st now message w)) \<in> set (fst (broadcast rs now message w st))"
  using assms by (simp add: broadcast_def Let_def forEach_client_eq)

theorem unauthenticated_receives_broadcast_witness:
  "(2::nat) \<in> set (clients (snd (handleConnection 2 (snd (handleConnection 1 new_server)))))
   \<and> (2::nat) \<noteq> 1 \<and> all_open 2 = OPEN
   \<and> map_of (usernames (snd (handleConnection 2 (snd (handleConnection 1 new_server))))) 2 = None
   \<and> (2, Chat (broadcastMessage (snd (handleConnection 2 (snd (handleConnection 1 new_server))))
                 ''t'' (Some (JStr ''hi'')) 1))
       \<in> set (fst (broadcast all_open ''t'' (Some (JStr ''hi'')) 1
                     (snd (handleConnection 2 (snd (handleConnection 1 new_server))))))"
proof -
  let ?st = "snd (handleConnection 2 (snd (handleConnection 1 new_server)))"
  have a: "(2::nat) \<in> set (clients ?st)"
    by (simp add: handleConnection_def new_server_def set_add_def)
  have b: "(2::nat) \<noteq> 1" by simp
  have c: "all_open 2 = OPEN" by (simp add: all_open_def)
  have d: "map_of (usernames ?st) 2 = None"
    by (simp add: handleConnection_def new_server_def)
  have e: "(2, Chat (broadcastMessage ?st ''t'' (Some (JStr ''hi'')) 1))
       \<in> set (fst (broadcast all_open ''t'' (Some (JStr ''hi'')) 1 ?st))"
    by (rule unauthenticated_receives_broadcast [where rs = all_open, OF a b c d])
  show ?thesis using a b c d e by blast
qed

section \<open>Payloads that are not JSON\<close>

text \<open>
  When \<^verbatim>\<open>JSON.parse\<close> throws on a payload, the message handler
  throws nothing and broadcasts the whole payload as the content, from the sending session.
  It does exactly what it does on a payload that decodes to an envelope of kind
  \<^verbatim>\<open>broadcast\<close> with that content: the message is appended to the history,
  carries the time of handling, and goes to every other client whose connection is OPEN.
\<close>

theorem undecodable_payload_is_broadcast:
  assumes "parse payload = None"
  shows "on_message parse rs now w payload st = Inr (broadcast rs now (Some (JStr payload)) w st)
    \<and> (\<forall>p. parse p = Some (JObj [(''type'', JStr ''broadcast''), (''content'', JStr payload)])
          \<longrightarrow> on_message parse rs now w p st = on_message parse rs now w payload st)
    \<and> messageHistory (snd (broadcast rs now (Some (JStr payload)) w st))
        = history_push (broadcastMessage st now (Some (JStr payload)) w) (messageHistory st)
    \<and> timestamp (broadcastMessage st now (Some (JStr payload)) w) = now
    \<and> content (broadcastMessage st now (Some (JStr payload)) w) = Some (JStr payload)
    \<and> fst (broadcast rs now (Some (JStr payload)) w st)
        = map (\<lambda>c. (c, Chat (broadcastMessage st now (Some (JStr payload)) w)))
            (filter (\<lambda>c. c \<noteq> w \<and> rs c = OPEN) (clients st))"
  using assms
  by (simp add: on_message_def parseMessage_def broadcast_def Let_def forEach_client_eq
      broadcastMessage_def)

theorem undecodable_payload_is_broadcast_witness:
  \<open>example_parse ''hello everyone'' = None
   \<and> on_message example_parse all_open ''t'' 1 ''hello everyone''
        \<lparr>clients = [1, 2], messageHistory = [], usernames = [(1, Some (JStr ''alice''))]\<rparr>
     = Inr ([(2, Chat \<lparr>msg_type = ''broadcast'', sender = Some (JStr ''alice''),
                          content = Some (JStr ''hello everyone''), timestamp = ''t''\<rparr>)],
            \<lparr>clients = [1, 2],
             messageHistory = [\<lparr>msg_type = ''broadcast'', sender = Some (JStr ''alice''),
                          content = Some (JStr ''hello everyone''), timestamp = ''t''\<rparr>],
             usernames = [(1, Some (JStr ''alice''))]\<rparr>)
   \<and> on_message example_parse all_open ''t'' 1 ''{"type":"broadcast","content":"hello everyone"}''
        \<lparr>clients = [1, 2], messageHistory = [], usernames = [(1, Some (JStr ''alice''))]\<rparr>
     = on_message example_parse all_open ''t'' 1 ''hello everyone''
        \<lparr>clients = [1, 2], messageHistory = [], usernames = [(1, Some (JStr ''alice''))]\<rparr>\<close>
proof -
  have h: "example_parse ''hello everyone'' = None"
    by (simp add: example_parse_def)
  have p: \<open>example_parse ''{"type":"broadcast","content":"hello everyone"}''
      = Some (JObj [(''type'', JStr ''broadcast''), (''content'', JStr ''hello everyone'')])\<close>
    by (simp add: example_parse_def)
  show ?thesis
    using h p undecodable_payload_is_broadcast [where parse = example_parse
        and payload = "''hello everyone''" and rs = all_open and now = "''t''" and w = 1
        and st = "\<lparr>clients = [1, 2], messageHistory = [], usernames = [(1, Some (JStr ''alice''))]\<rparr>"]
    by (simp add: broadcast_def broadcastMessage_def sender_name_def map_get_def history_push_def
        Let_def all_open_def)
qed

text \<open>
  Claim C9. Text that is JSON but no envelope does not reach the \<^verbatim>\<open>catch\<close> of
  \<^verbatim>\<open>parseMessage\<close>. On the payload \<^verbatim>\<open>null\<close> the handler throws a
  TypeError at \<^verbatim>\<open>data.type\<close>, and nothing is broadcast. On the payload
  \<^verbatim>\<open>42\<close> it broadcasts a message whose content is \<^verbatim>\<open>undefined\<close>,
  not the payload.
\<close>

theorem json_text_is_not_broadcast:
  "run example_parse new_server
     [Connection 1, Connection 2, Message 1 ''null'' ''t1'' all_open] = Inl TypeError
   \<and> run example_parse new_server
     [Connection 1, Connection 2, Message 1 ''42'' ''t1'' all_open]
     = Inr ([(1, AuthRequest), (2, AuthRequest),
             (2, Chat \<lparr>msg_type = ''broadcast'', sender = Some (JStr ''Anonymous''),
                       content = None, timestamp = ''t1''\<rparr>)],
            \<lparr>clients = [1, 2],
             messageHistory = [\<lparr>msg_type = ''broadcast'', sender = Some (JStr ''Anonymous''),
                       content = None, timestamp = ''t1''\<rparr>],
             usernames = []\<rparr>)"
  by (simp add: ex_defs)

section \<open>The history\<close>

lemma message_of_cong: "usernames st' = usernames st \<Longrightarrow> message_of st' = message_of st"
  by (simp add: fun_eq_iff message_of_def broadcastMessage_def sender_name_def)

lemma history_push_drop:
  assumes "length h \<le> 100"
  shows "drop (length (history_push m h @ ms) - 100) (history_push m h @ ms)
       = drop (length (h @ m # ms) - 100) (h @ m # ms)"
proof (cases "length h < 100")
  case True
  then show ?thesis by (simp add: history_push_def Let_def)
next
  case False
  with assms have l: "length h = 100" by simp
  then obtain x h' where h: "h = x # h'" by (cases h) auto
  with l have l': "length h' = 99" by simp
  show ?thesis using l' by (simp add: history_push_def Let_def h)
qed

lemma broadcasts_usernames: "usernames (broadcasts st bs) = usernames st"
  by (induction st bs rule: broadcasts.induct) (simp_all add: broadcast_def Let_def)

lemma broadcasts_history:
  "length (messageHistory st) \<le> 100 \<Longrightarrow>
   messageHistory (broadcasts st bs)
     = drop (length (messageHistory st @ map (message_of st) bs) - 100)
         (messageHistory st @ map (message_of st) bs)"
proof (induction st bs rule: broadcasts.induct)
  case (1 st)
  then show ?case by simp
next
  case (2 st w message now readyState bs)
  let ?st1 = "snd (broadcast readyState now message w st)"
  let ?m = "broadcastMessage st now message w"
  have u: "usernames ?st1 = usernames st" by (simp add: broadcast_def Let_def)
  have h1: "messageHistory ?st1 = history_push ?m (messageHistory st)"
    by (simp add: broadcast_def Let_def)
  have l1: "length (messageHistory ?st1) \<le> 100"
    using "2.prems" by (simp add: h1 history_push_length)
  have "messageHistory (broadcasts st ((w, message, now, readyState) # bs))
      = messageHistory (broadcasts ?st1 bs)" by simp
  also have "\<dots> = drop (length (messageHistory ?st1 @ map (message_of ?st1) bs) - 100)
         (messageHistory ?st1 @ map (message_of ?st1) bs)"
    using "2.IH" l1 by blast
  also have "\<dots> = drop (length (history_push ?m (messageHistory st) @ map (message_of st) bs) - 100)
         (history_push ?m (messageHistory st) @ map (message_of st) bs)"
    by (simp only: h1 message_of_cong [OF u])
  also have "\<dots> = drop (length (messageHistory st @ ?m # map (message_of st) bs) - 100)
         (messageHistory st @ ?m # map (message_of st) bs)"
    using "2.prems" by (rule history_push_drop)
  finally have f: "messageHistory (broadcasts st ((w, message, now, readyState) # bs))
      = drop (length (messageHistory st @ ?m # map (message_of st) bs) - 100)
         (messageHistory st @ ?m # map (message_of st) bs)" .
  have mo: "map (message_of st) ((w, message, now, readyState) # bs) = ?m # map (message_of st) bs"
    by (simp add: message_of_def)
  show ?case by (simp only: f mo)
qed

lemma slice_last_10: "slice (- 10) xs = drop (length xs - 10) xs"
  by (simp add: slice_def Let_def max_def nat_diff_distrib')

text \<open>
  Claim C8. The history never holds more than 100 messages, whatever events the server has
  handled since it started; and after 150 broadcasts into an empty history, the
  \<^verbatim>\<open>auth_success\<close> reply to a session whose name is free carries the messages of
  the 141st to the 150th broadcast, oldest first.
\<close>

theorem history_bounded_and_replayed:
  "(run parse new_server es = Inr (out, st) \<longrightarrow> length (messageHistory st) \<le> 100)
   \<and> (messageHistory st0 = [] \<longrightarrow> length (messageHistory (broadcasts st0 bs)) \<le> 100)
   \<and> (messageHistory st0 = [] \<and> length bs = 150
         \<and> \<not> js_includes (map snd (usernames st0)) name \<longrightarrow>
       handleAuth w name (broadcasts st0 bs)
         = ([(w, AuthSuccess ''Authentication successful'' (drop 140 (map (message_of st0) bs)))],
            (broadcasts st0 bs)\<lparr>usernames := map_set w name (usernames st0)\<rparr>))"
proof (intro conjI impI)
  assume "run parse new_server es = Inr (out, st)"
  with new_server_inv have "server_inv st" by (rule run_inv)
  then show "length (messageHistory st) \<le> 100" by (simp add: server_inv_def)
next
  assume "messageHistory st0 = []"
  then show "length (messageHistory (broadcasts st0 bs)) \<le> 100"
    by (simp add: broadcasts_history)
next
  assume a: "messageHistory st0 = [] \<and> length bs = 150
         \<and> \<not> js_includes (map snd (usernames st0)) name"
  then have a1: "messageHistory st0 = []" and a2: "length bs = 150"
    and a3: "\<not> js_includes (map snd (usernames st0)) name"
    by blast+
  have h: "messageHistory (broadcasts st0 bs) = drop 50 (map (message_of st0) bs)"
    using broadcasts_history [of st0 bs] by (simp add: a1 a2)
  have sl: "slice (- 10) (messageHistory (broadcasts st0 bs)) = drop 140 (map (message_of st0) bs)"
    by (simp add: h slice_last_10 a2)
  have u: "usernames (broadcasts st0 bs) = usernames st0"
    by (rule broadcasts_usernames)
  show "handleAuth w name (broadcasts st0 bs)
         = ([(w, AuthSuccess ''Authentication successful'' (drop 140 (map (message_of st0) bs)))],
            (broadcasts st0 bs)\<lparr>usernames := map_set w name (usernames st0)\<rparr>)"
    unfolding handleAuth_def u sl using a3 by simp
qed

theorem history_bounded_and_replayed_witness:
  "run example_parse new_server [Connection 1, Message 1 ''hello everyone'' ''t'' all_open]
     = Inr ([(1, AuthRequest)],
            \<lparr>clients = [1],
             messageHistory = [\<lparr>msg_type = ''broadcast'', sender = Some (JStr ''Anonymous''),
                 content = Some (JStr ''hello everyone''), timestamp = ''t''\<rparr>],
             usernames = []\<rparr>)
   \<and> length (messageHistory \<lparr>clients = [1],
             messageHistory = [\<lparr>msg_type = ''broadcast'', sender = Some (JStr ''Anonymous''),
                 content = Some (JStr ''hello everyone''), timestamp = ''t''\<rparr>],
             usernames = []\<rparr>) \<le> 100
   \<and> messageHistory new_server = [] \<and> length (map numbered [1..<151]) = 150
   \<and> \<not> js_includes (map snd (usernames new_server)) (Some (JStr ''bob''))
   \<and> length (messageHistory (broadcasts new_server (map numbered [1..<151]))) \<le> 100
   \<and> fst (handleAuth 2 (Some (JStr ''bob'')) (broadcasts new_server (map numbered [1..<151])))
       = [(2, AuthSuccess ''Authentication successful'' (map numbered_message [141..<151]))]"
proof -
  have r: "run example_parse new_server [Connection 1, Message 1 ''hello everyone'' ''t'' all_open]
     = Inr ([(1, AuthRequest)],
            \<lparr>clients = [1],
             messageHistory = [\<lparr>msg_type = ''broadcast'', sender = Some (JStr ''Anonymous''),
                 content = Some (JStr ''hello everyone''), timestamp = ''t''\<rparr>],
             usernames = []\<rparr>)"
    by (simp add: example_parse_def new_server_def handleConnection_def set_add_def
        on_message_def parseMessage_def broadcast_def broadcastMessage_def sender_name_def
        map_get_def history_push_def Let_def all_open_def)
  have e: "messageHistory new_server = []" by (simp add: new_server_def)
  have l: "length (map numbered [1..<151]) = 150" by simp
  have n: "\<not> js_includes (map snd (usernames new_server)) (Some (JStr ''bob''))"
    by (simp add: new_server_def js_includes_def)
  have m: "map (message_of new_server) (map numbered [1..<151]) = map numbered_message [1..<151]"
    by (simp add: message_of_def numbered_def numbered_message_def broadcastMessage_def
        sender_name_def map_get_def new_server_def)
  have d: "drop 140 (map numbered_message [1..<151]) = map numbered_message [141..<151]"
    by (simp add: drop_map)
  note T = history_bounded_and_replayed [where parse = example_parse
        and es = "[Connection 1, Message 1 ''hello everyone'' ''t'' all_open]"
        and out = "[(1, AuthRequest)]"
        and st = "\<lparr>clients = [1],
             messageHistory = [\<lparr>msg_type = ''broadcast'', sender = Some (JStr ''Anonymous''),
                 content = Some (JStr ''hello everyone''), timestamp = ''t''\<rparr>],
             usernames = []\<rparr>"
        and ?st0.0 = new_server and bs = "map numbered [1..<151]" and name = "Some (JStr ''bob'')"
        and w = 2]
  have c1: "length (messageHistory \<lparr>clients = [1],
             messageHistory = [\<lparr>msg_type = ''broadcast'', sender = Some (JStr ''Anonymous''),
                 content = Some (JStr ''hello everyone''), timestamp = ''t''\<rparr>],
             usernames = []\<rparr>) \<le> 100"
    using T r by blast
  have c2: "length (messageHistory (broadcasts new_server (map numbered [1..<151]))) \<le> 100"
    using T e by blast
  have c3: "handleAuth 2 (Some (JStr ''bob'')) (broadcasts new_server (map numbered [1..<151]))
         = ([(2, AuthSuccess ''Authentication successful''
                (drop 140 (map (message_of new_server) (map numbered [1..<151]))))],
            (broadcasts new_server (map numbered [1..<151]))
              \<lparr>usernames := map_set 2 (Some (JStr ''bob'')) (usernames new_server)\<rparr>)"
    using T e l n by blast
  have c4: "fst (handleAuth 2 (Some (JStr ''bob'')) (broadcasts new_server (map numbered [1..<151])))
       = [(2, AuthSuccess ''Authentication successful'' (map numbered_message [141..<151]))]"
    by (simp only: c3 fst_conv m d)
  show ?thesis using r c1 e l n c2 c4 by blast
qed

section \<open>Names\<close>




text \<open>
  Claim C3, as stated, fails: session 1 holds \<open>alice\<close>, no other live session does, and
  its own claim of \<open>alice\<close> is rejected.
\<close>

theorem self_reclaim_rejected:
  "run example_parse new_server [Connection 1, Message 1 auth_alice ''t1'' all_open, Connection 2]
     = Inr ([(1, AuthRequest), (1, AuthSuccess ''Authentication successful'' []), (2, AuthRequest)],
            alice_and_guest)
   \<and> \<not> spec_name_taken alice_and_guest 1 (Some (JStr ''alice''))
   \<and> handleAuth 1 (Some (JStr ''alice'')) alice_and_guest
       = ([(1, AuthError ''Username already taken'')], alice_and_guest)"
  by (simp add: ex_defs alice_and_guest_def spec_name_taken_def)

text \<open>
  Claim C3, amended. \<^verbatim>\<open>handleAuth\<close> answers \<^verbatim>\<open>auth_error\<close> and
  leaves the state as it is whenever some live session, the claimant included, holds the
  name; it answers \<^verbatim>\<open>auth_success\<close> and binds the name to the claimant whenever
  no entry of \<^verbatim>\<open>usernames\<close> holds the name.
\<close>

theorem handleAuth_outcome:
  "(c \<in> set (clients st) \<and> map_get (usernames st) c = Some (JStr n) \<longrightarrow>
      handleAuth w (Some (JStr n)) st = ([(w, AuthError ''Username already taken'')], st))
   \<and> ((\<forall>e \<in> set (usernames st). snd e \<noteq> Some (JStr m)) \<longrightarrow>
      handleAuth w (Some (JStr m)) st
        = ([(w, AuthSuccess ''Authentication successful'' (slice (- 10) (messageHistory st)))],
           st\<lparr>usernames := map_set w (Some (JStr m)) (usernames st)\<rparr>)
      \<and> map_get (usernames (snd (handleAuth w (Some (JStr m)) st))) w = Some (JStr m))"
proof (intro conjI impI)
  assume "c \<in> set (clients st) \<and> map_get (usernames st) c = Some (JStr n)"
  then have "map_get (usernames st) c = Some (JStr n)" by (rule conjunct2)
  then have "js_includes (map snd (usernames st)) (Some (JStr n))"
    by (rule held_name_included)
  then show "handleAuth w (Some (JStr n)) st = ([(w, AuthError ''Username already taken'')], st)"
    by (rule handleAuth_taken)
next
  assume "\<forall>e \<in> set (usernames st). snd e \<noteq> Some (JStr m)"
  then have f: "\<not> js_includes (map snd (usernames st)) (Some (JStr m))"
    by (auto simp: js_includes_iff dest: js_equal_eq)
  then show "handleAuth w (Some (JStr m)) st
        = ([(w, AuthSuccess ''Authentication successful'' (slice (- 10) (messageHistory st)))],
           st\<lparr>usernames := map_set w (Some (JStr m)) (usernames st)\<rparr>)"
    by (rule handleAuth_free)
  from f show "map_get (usernames (snd (handleAuth w (Some (JStr m)) st))) w = Some (JStr m)"
    by (simp add: handleAuth_free map_get_map_set)
qed

theorem handleAuth_outcome_witness:
  "(1::nat) \<in> set (clients alice_and_guest)
   \<and> map_get (usernames alice_and_guest) 1 = Some (JStr ''alice'')
   \<and> handleAuth 1 (Some (JStr ''alice'')) alice_and_guest
       = ([(1, AuthError ''Username already taken'')], alice_and_guest)
   \<and> map snd (usernames alice_and_guest) = [Some (JStr ''alice'')]
   \<and> handleAuth 1 (Some (JStr ''bob'')) alice_and_guest
       = ([(1, AuthSuccess ''Authentication successful'' [])],
          \<lparr>clients = [1, 2], messageHistory = [], usernames = [(1, Some (JStr ''bob''))]\<rparr>)"
proof -
  have a: "(1::nat) \<in> set (clients alice_and_guest)
      \<and> map_get (usernames alice_and_guest) 1 = Some (JStr ''alice'')"
    by (simp add: alice_and_guest_def map_get_def)
  have b: "\<forall>e \<in> set (usernames alice_and_guest). snd e \<noteq> Some (JStr ''bob'')"
    by (simp add: alice_and_guest_def)
  note T = handleAuth_outcome [where c = 1 and st = alice_and_guest and n = "''alice''"
      and m = "''bob''" and w = 1]
  from T a have c1: "handleAuth 1 (Some (JStr ''alice'')) alice_and_guest
       = ([(1, AuthError ''Username already taken'')], alice_and_guest)" by blast
  from T b have c2: "handleAuth 1 (Some (JStr ''bob'')) alice_and_guest
        = ([(1, AuthSuccess ''Authentication successful''
              (slice (- 10) (messageHistory alice_and_guest)))],
           alice_and_guest\<lparr>usernames := map_set 1 (Some (JStr ''bob'')) (usernames alice_and_guest)\<rparr>)"
    by blast
  have c3: "handleAuth 1 (Some (JStr ''bob'')) alice_and_guest
       = ([(1, AuthSuccess ''Authentication successful'' [])],
          \<lparr>clients = [1, 2], messageHistory = [], usernames = [(1, Some (JStr ''bob''))]\<rparr>)"
    unfolding c2 by (simp add: alice_and_guest_def slice_def)
  have v: "map snd (usernames alice_and_guest) = [Some (JStr ''alice'')]"
    by (simp add: alice_and_guest_def)
  show ?thesis using a v c1 c3 by blast
qed

lemma handleAuth_binding:
  assumes "handleAuth w u st = (out, st')" and "\<forall>s h. (a, AuthSuccess s h) \<notin> set out"
  shows "map_get (usernames st') a = map_get (usernames st) a"
proof (cases "js_includes (map snd (usernames st)) u")
  case True
  with assms(1) show ?thesis by (simp add: handleAuth_taken)
next
  case False
  with assms(1) have o: "out = [(w, AuthSuccess ''Authentication successful''
        (slice (- 10) (messageHistory st)))]"
    and s: "st' = st\<lparr>usernames := map_set w u (usernames st)\<rparr>"
    by (simp_all add: handleAuth_free)
  from o assms(2) have "a \<noteq> w" by auto
  then show ?thesis by (simp add: s map_get_map_set)
qed

lemma on_message_binding:
  assumes "on_message parse rs now w payload st = Inr (out, st')"
    and "\<forall>s h. (a, AuthSuccess s h) \<notin> set out"
  shows "map_get (usernames st') a = map_get (usernames st) a"
proof -
  let ?data = "parseMessage parse payload"
  from assms(1) obtain t where t: "get_prop ?data ''type'' = Inr t"
    by (auto simp: on_message_def Let_def split: sum.splits)
  consider (is_auth) "js_equal t (Some (JStr ''auth''))"
    | (is_private) "\<not> js_equal t (Some (JStr ''auth''))" "js_equal t (Some (JStr ''private''))"
    | (is_other) "\<not> js_equal t (Some (JStr ''auth''))" "\<not> js_equal t (Some (JStr ''private''))"
    by blast
  then show ?thesis
  proof cases
    case is_auth
    with assms(1) t obtain u where "handleAuth w u st = (out, st')"
      by (auto simp: on_message_def Let_def split: sum.splits)
    then show ?thesis using assms(2) by (rule handleAuth_binding)
  next
    case is_private
    with assms(1) t have "handlePrivateMessage w ?data now st = Inr (out, st')"
      by (auto simp: on_message_def Let_def split: sum.splits)
    then have "st' = st" by (rule handlePrivateMessage_state)
    then show ?thesis by simp
  next
    case is_other
    with assms(1) t obtain c where "broadcast rs now c w st = (out, st')"
      by (auto simp: on_message_def Let_def split: sum.splits)
    then have "usernames st' = usernames st" by (auto simp: broadcast_def Let_def)
    then show ?thesis by simp
  qed
qed

lemma step_binding:
  assumes "step parse st e = Inr (out, st')" and "\<forall>s h. (a, AuthSuccess s h) \<notin> set out"
  shows "map_get (usernames st') a = map_get (usernames st) a"
proof (cases e)
  case (Connection w)
  with assms(1) show ?thesis by (auto simp: handleConnection_def)
next
  case (Message w payload now rs)
  with assms show ?thesis by (auto dest: on_message_binding)
next
  case (Close w)
  with assms(1) show ?thesis by (auto simp: on_close_def)
next
  case (Error w)
  with assms(1) show ?thesis by (auto simp: on_error_def)
qed

lemma run_binding:
  "run parse st es = Inr (out, st') \<Longrightarrow> \<forall>s h. (a, AuthSuccess s h) \<notin> set out \<Longrightarrow>
   map_get (usernames st') a = map_get (usernames st) a"
proof (induction es arbitrary: st out)
  case Nil
  then show ?case by simp
next
  case (Cons e es)
  from Cons.prems(1) obtain out1 st1 out2 where
    s: "step parse st e = Inr (out1, st1)" and r: "run parse st1 es = Inr (out2, st')"
    and o: "out = out1 @ out2"
    by (auto split: sum.splits prod.splits)
  from o Cons.prems(2) have n1: "\<forall>s h. (a, AuthSuccess s h) \<notin> set out1"
    and n2: "\<forall>s h. (a, AuthSuccess s h) \<notin> set out2" by auto
  have "map_get (usernames st1) a = map_get (usernames st) a"
    using s n1 by (rule step_binding)
  moreover have "map_get (usernames st') a = map_get (usernames st1) a"
    using r n2 by (rule Cons.IH)
  ultimately show ?case by simp
qed

text \<open>
  Claim C4, as stated, fails: session 1 holds \<open>alice\<close>, stays connected, claims \<open>bob\<close>,
  and from then on holds \<open>bob\<close>.
\<close>

theorem rebinding_replaces_name:
  "run example_parse new_server [Connection 1, Message 1 auth_alice ''t1'' all_open, Connection 2]
     = Inr ([(1, AuthRequest), (1, AuthSuccess ''Authentication successful'' []), (2, AuthRequest)],
            alice_and_guest)
   \<and> map_get (usernames alice_and_guest) 1 = Some (JStr ''alice'')
   \<and> step example_parse alice_and_guest (Message 1 auth_bob ''t2'' all_open)
       = Inr ([(1, AuthSuccess ''Authentication successful'' [])],
              \<lparr>clients = [1, 2], messageHistory = [], usernames = [(1, Some (JStr ''bob''))]\<rparr>)
   \<and> 1 \<in> set (clients
         \<lparr>clients = [1, 2], messageHistory = [], usernames = [(1, Some (JStr ''bob''))]\<rparr>)
   \<and> map_get (usernames
         \<lparr>clients = [1, 2], messageHistory = [], usernames = [(1, Some (JStr ''bob''))]\<rparr>) 1
       \<noteq> Some (JStr ''alice'')"
  by (simp add: ex_defs alice_and_guest_def)

text \<open>
  Claim C4, amended. While a session is live, its name stays bound to it through every run
  of events in which the session itself receives no \<^verbatim>\<open>auth_success\<close>: nothing
  another session does changes or releases the binding, and of the session's own messages
  only a successful new claim replaces it.
\<close>

theorem binding_persists:
  assumes "run parse st es = Inr (out, st')"
    and "map_get (usernames st) a = Some (JStr n)"
    and "Close a \<notin> set es" and "Error a \<notin> set es"
    and "\<forall>s h. (a, AuthSuccess s h) \<notin> set out"
  shows "map_get (usernames st') a = Some (JStr n)"
  using run_binding [OF assms(1) assms(5)] assms(2) by simp

theorem binding_persists_witness:
  "run example_parse alice_and_guest
     [Message 2 auth_bob ''t2'' all_open, Message 1 ''hello everyone'' ''t3'' all_open,
      Message 1 auth_bob ''t4'' all_open, Close 2]
     = Inr ([(2, AuthSuccess ''Authentication successful'' []),
             (2, Chat \<lparr>msg_type = ''broadcast'', sender = Some (JStr ''alice''),
                       content = Some (JStr ''hello everyone''), timestamp = ''t3''\<rparr>),
             (1, AuthError ''Username already taken'')],
            \<lparr>clients = [1],
             messageHistory = [\<lparr>msg_type = ''broadcast'', sender = Some (JStr ''alice''),
                       content = Some (JStr ''hello everyone''), timestamp = ''t3''\<rparr>],
             usernames = [(1, Some (JStr ''alice'')), (2, Some (JStr ''bob''))]\<rparr>)
   \<and> map_get (usernames alice_and_guest) 1 = Some (JStr ''alice'')
   \<and> map_get (usernames \<lparr>clients = [1],
             messageHistory = [\<lparr>msg_type = ''broadcast'', sender = Some (JStr ''alice''),
                       content = Some (JStr ''hello everyone''), timestamp = ''t3''\<rparr>],
             usernames = [(1, Some (JStr ''alice'')), (2, Some (JStr ''bob''))]\<rparr>) 1
       = Some (JStr ''alice'')"
proof -
  let ?es = "[Message 2 auth_bob ''t2'' all_open, Message 1 ''hello everyone'' ''t3'' all_open,
      Message 1 auth_bob ''t4'' all_open, Close 2]"
  let ?out = "[(2::nat, AuthSuccess ''Authentication successful'' []),
             (2, Chat \<lparr>msg_type = ''broadcast'', sender = Some (JStr ''alice''),
                       content = Some (JStr ''hello everyone''), timestamp = ''t3''\<rparr>),
             (1, AuthError ''Username already taken'')]"
  let ?st' = "\<lparr>clients = [1],
             messageHistory = [\<lparr>msg_type = ''broadcast'', sender = Some (JStr ''alice''),
                       content = Some (JStr ''hello everyone''), timestamp = ''t3''\<rparr>],
             usernames = [(1, Some (JStr ''alice'')), (2, Some (JStr ''bob''))]\<rparr>"
  have r: "run example_parse alice_and_guest ?es = Inr (?out, ?st')"
    by (simp add: ex_defs alice_and_guest_def)
  have g: "map_get (usernames alice_and_guest) 1 = Some (JStr ''alice'')"
    by (simp add: alice_and_guest_def map_get_def)
  have c: "Close 1 \<notin> set ?es" by simp
  have e: "Error 1 \<notin> set ?es" by simp
  have n: "\<forall>s h. (1::nat, AuthSuccess s h) \<notin> set ?out" by simp
  have "map_get (usernames ?st') 1 = Some (JStr ''alice'')"
    by (rule binding_persists [OF r g c e n])
  with r g show ?thesis by blast
qed

text \<open>
  Claim C1. The handlers of \<^verbatim>\<open>close\<close> and \<^verbatim>\<open>error\<close> delete the
  socket from \<^verbatim>\<open>clients\<close> only. Session 1 authenticates as \<open>alice\<close> and
  closes; session 2 connects and claims \<open>alice\<close>: the entry of session 1 is still in
  \<^verbatim>\<open>usernames\<close> and session 2 is answered with \<^verbatim>\<open>auth_error\<close>.
\<close>

theorem closed_session_keeps_name:
  "run example_parse new_server
     [Connection 1, Message 1 auth_alice ''t1'' all_open, Close 1, Connection 2,
      Message 2 auth_alice ''t2'' all_open]
   = Inr ([(1, AuthRequest), (1, AuthSuccess ''Authentication successful'' []),
           (2, AuthRequest), (2, AuthError ''Username already taken'')],
          \<lparr>clients = [2], messageHistory = [], usernames = [(1, Some (JStr ''alice''))]\<rparr>)"
  by (simp add: ex_defs)

section \<open>Private messages\<close>

text \<open>
  Claim C5. Session 1 is \<open>bob\<close>; session 2, which has not authenticated, sends a private
  message to \<open>bob\<close>. The sender of the envelope that both receive is
  \<^verbatim>\<open>undefined\<close>, where a broadcast of session 2 carries \<open>Anonymous\<close>.
\<close>

theorem private_sender_undefined:
  "run example_parse new_server
     [Connection 1, Message 1 auth_bob ''t1'' all_open, Connection 2,
      Message 2 private_bob ''t2'' all_open]
   = Inr ([(1, AuthRequest), (1, AuthSuccess ''Authentication successful'' []),
           (2, AuthRequest),
           (1, Chat \<lparr>msg_type = ''private'', sender = None, content = Some (JStr ''secret''),
                     timestamp = ''t2''\<rparr>),
           (2, Chat \<lparr>msg_type = ''private'', sender = None, content = Some (JStr ''secret''),
                     timestamp = ''t2''\<rparr>)],
          \<lparr>clients = [1, 2], messageHistory = [], usernames = [(1, Some (JStr ''bob''))]\<rparr>)
   \<and> sender (broadcastMessage
         \<lparr>clients = [1, 2], messageHistory = [], usernames = [(1, Some (JStr ''bob''))]\<rparr>
         ''t3'' (Some (JStr ''secret'')) 2) = Some (JStr ''Anonymous'')"
  by (simp add: ex_defs)

lemma find_entry_object:
  "find_entry (JObj kvs) es
     = Inr (find (\<lambda>e. js_equal (snd e) (map_of kvs ''recipient'')) es)"
  by (induction es) auto

lemma find_holder:
  "names_distinct es \<Longrightarrow> (r, Some (JStr n)) \<in> set es \<Longrightarrow>
   find (\<lambda>e. js_equal (snd e) (Some (JStr n))) es = Some (r, Some (JStr n))"
proof (induction es)
  case Nil
  then show ?case by simp
next
  case (Cons e es)
  obtain k x where e: "e = (k, x)" by (cases e)
  show ?case
  proof (cases "js_equal x (Some (JStr n))")
    case True
    then have x: "x = Some (JStr n)" by (rule js_equal_eq)
    have "(k, x) \<in> set (e # es)" by (simp add: e)
    with Cons.prems True have "k = r"
      using names_distinct_unique [of "e # es" k x r "Some (JStr n)"] by blast
    with True x show ?thesis by (simp add: e)
  next
    case False
    then have "x \<noteq> Some (JStr n)" by auto
    with Cons.prems(2) have "(r, Some (JStr n)) \<in> set es" by (auto simp: e)
    moreover from Cons.prems(1) have "names_distinct es" by (simp add: e)
    ultimately have "find (\<lambda>e. js_equal (snd e) (Some (JStr n))) es = Some (r, Some (JStr n))"
      by (rule Cons.IH [rotated])
    with False show ?thesis by (simp add: e)
  qed
qed

lemma find_no_holder:
  assumes "distinct (map fst es)" and "\<forall>k. map_get es k \<noteq> v"
  shows "find (\<lambda>e. js_equal (snd e) v) es = None"
proof -
  have "\<not> js_equal (snd e) v" if "e \<in> set es" for e
  proof
    assume j: "js_equal (snd e) v"
    from that have "map_of es (fst e) = Some (snd e)"
      by (simp add: map_of_eq_Some_iff [OF assms(1)])
    then have "map_get es (fst e) = snd e" by (simp add: map_get_def)
    with j assms(2) show False by (auto dest: js_equal_eq)
  qed
  then show ?thesis by (force simp: find_None_iff)
qed

text \<open>
  In every state the server reaches, a private message whose recipient name is held
  by a live session makes exactly two calls of \<^verbatim>\<open>send\<close>, both with the same
  envelope: one on the socket of that session, one on the sender's. When no entry of
  \<^verbatim>\<open>usernames\<close> holds the recipient name, no call of \<^verbatim>\<open>send\<close> is
  made at all, so the sender is told nothing.
\<close>

theorem private_message_delivery:
  assumes "run parse new_server es = Inr (out, st)"
    and "parse payload = Some (JObj kvs)"
    and "map_of kvs ''type'' = Some (JStr ''private'')"
    and "map_of kvs ''recipient'' = Some (JStr n)"
  shows "(r \<in> set (clients st) \<and> map_get (usernames st) r = Some (JStr n) \<longrightarrow>
            on_message parse rs now w payload st
              = Inr ([(r, Chat \<lparr>msg_type = ''private'', sender = map_get (usernames st) w,
                               content = map_of kvs ''content'', timestamp = now\<rparr>),
                      (w, Chat \<lparr>msg_type = ''private'', sender = map_get (usernames st) w,
                               content = map_of kvs ''content'', timestamp = now\<rparr>)], st))
       \<and> ((\<forall>k. map_get (usernames st) k \<noteq> Some (JStr n)) \<longrightarrow>
            on_message parse rs now w payload st = Inr ([], st))"
proof -
  from new_server_inv assms(1) have "server_inv st" by (rule run_inv)
  then have dk: "distinct (map fst (usernames st))" and nd: "names_distinct (usernames st)"
    by (simp_all add: server_inv_def)
  have route: "on_message parse rs now w payload st = handlePrivateMessage w (JObj kvs) now st"
    using assms(2,3) by (simp add: on_message_def parseMessage_def)
  show ?thesis
  proof (intro conjI impI)
    assume "r \<in> set (clients st) \<and> map_get (usernames st) r = Some (JStr n)"
    then have "(r, Some (JStr n)) \<in> set (usernames st)" by (simp add: map_get_mem)
    with nd have "find (\<lambda>e. js_equal (snd e) (Some (JStr n))) (usernames st)
        = Some (r, Some (JStr n))" by (rule find_holder)
    then show "on_message parse rs now w payload st
              = Inr ([(r, Chat \<lparr>msg_type = ''private'', sender = map_get (usernames st) w,
                               content = map_of kvs ''content'', timestamp = now\<rparr>),
                      (w, Chat \<lparr>msg_type = ''private'', sender = map_get (usernames st) w,
                               content = map_of kvs ''content'', timestamp = now\<rparr>)], st)"
      by (simp add: route handlePrivateMessage_def find_entry_object assms(4) Let_def)
  next
    assume "\<forall>k. map_get (usernames st) k \<noteq> Some (JStr n)"
    with dk have "find (\<lambda>e. js_equal (snd e) (Some (JStr n))) (usernames st) = None"
      by (rule find_no_holder)
    then show "on_message parse rs now w payload st = Inr ([], st)"
      by (simp add: route handlePrivateMessage_def find_entry_object assms(4))
  qed
qed

theorem private_message_delivery_witness:
  "run example_parse new_server
     [Connection 1, Message 1 auth_alice ''t1'' all_open, Connection 2,
      Message 2 auth_bob ''t2'' all_open, Connection 3]
     = Inr ([(1, AuthRequest), (1, AuthSuccess ''Authentication successful'' []),
             (2, AuthRequest), (2, AuthSuccess ''Authentication successful'' []),
             (3, AuthRequest)], three_sessions)
   \<and> 2 \<in> set (clients three_sessions)
   \<and> map_get (usernames three_sessions) 2 = Some (JStr ''bob'')
   \<and> on_message example_parse all_open ''t3'' 1 private_bob three_sessions
       = Inr ([(2, Chat \<lparr>msg_type = ''private'', sender = Some (JStr ''alice''),
                         content = Some (JStr ''secret''), timestamp = ''t3''\<rparr>),
               (1, Chat \<lparr>msg_type = ''private'', sender = Some (JStr ''alice''),
                         content = Some (JStr ''secret''), timestamp = ''t3''\<rparr>)],
              three_sessions)
   \<and> map snd (usernames three_sessions) = [Some (JStr ''alice''), Some (JStr ''bob'')]
   \<and> on_message example_parse all_open ''t4'' 1 private_carol three_sessions
       = Inr ([], three_sessions)"
proof -
  let ?es = "[Connection 1, Message 1 auth_alice ''t1'' all_open, Connection 2,
      Message 2 auth_bob ''t2'' all_open, Connection 3]"
  let ?out = "[(1::nat, AuthRequest), (1, AuthSuccess ''Authentication successful'' []),
             (2, AuthRequest), (2, AuthSuccess ''Authentication successful'' []),
             (3, AuthRequest)]"
  have r: "run example_parse new_server ?es = Inr (?out, three_sessions)"
    by (simp add: ex_defs three_sessions_def)
  have pb: "example_parse private_bob
      = Some (JObj [(''type'', JStr ''private''), (''recipient'', JStr ''bob''),
                    (''content'', JStr ''secret'')])"
    by (simp add: example_parse_def private_bob_def)
  have pc: "example_parse private_carol
      = Some (JObj [(''type'', JStr ''private''), (''recipient'', JStr ''carol''),
                    (''content'', JStr ''psst'')])"
    by (simp add: example_parse_def private_carol_def)
  have tb: "map_of [(''type'', JStr ''private''), (''recipient'', JStr ''bob''),
                    (''content'', JStr ''secret'')] ''type'' = Some (JStr ''private'')"
    by simp
  have rb: "map_of [(''type'', JStr ''private''), (''recipient'', JStr ''bob''),
                    (''content'', JStr ''secret'')] ''recipient'' = Some (JStr ''bob'')"
    by simp
  have tc: "map_of [(''type'', JStr ''private''), (''recipient'', JStr ''carol''),
                    (''content'', JStr ''psst'')] ''type'' = Some (JStr ''private'')"
    by simp
  have rc: "map_of [(''type'', JStr ''private''), (''recipient'', JStr ''carol''),
                    (''content'', JStr ''psst'')] ''recipient'' = Some (JStr ''carol'')"
    by simp
  have h: "2 \<in> set (clients three_sessions)
      \<and> map_get (usernames three_sessions) 2 = Some (JStr ''bob'')"
    by (simp add: three_sessions_def map_get_def)
  have nc: "\<forall>k. map_get (usernames three_sessions) k \<noteq> Some (JStr ''carol'')"
    by (simp add: three_sessions_def map_get_def)
  note B = private_message_delivery [OF r pb tb rb, where r = 2 and rs = all_open
      and now = "''t3''" and w = 1]
  note C = private_message_delivery [OF r pc tc rc, where rs = all_open
      and now = "''t4''" and w = 1]
  from B h have c1: "on_message example_parse all_open ''t3'' 1 private_bob three_sessions
       = Inr ([(2, Chat \<lparr>msg_type = ''private'', sender = Some (JStr ''alice''),
                         content = Some (JStr ''secret''), timestamp = ''t3''\<rparr>),
               (1, Chat \<lparr>msg_type = ''private'', sender = Some (JStr ''alice''),
                         content = Some (JStr ''secret''), timestamp = ''t3''\<rparr>)],
              three_sessions)"
    by (simp add: three_sessions_def map_get_def)
  from C nc have c2: "on_message example_parse all_open ''t4'' 1 private_carol three_sessions
       = Inr ([], three_sessions)"
    by blast
  have v: "map snd (usernames three_sessions) = [Some (JStr ''alice''), Some (JStr ''bob'')]"
    by (simp add: three_sessions_def)
  show ?thesis using r h v c1 c2 by blast
qed

text \<open>
  Claim C6. Sessions 1 and 2 are \<open>alice\<close> and \<open>bob\<close>; session 2 closes, and its entry
  stays in \<^verbatim>\<open>usernames\<close>. Session 1 then sends a private message to \<open>bob\<close>: no
  live session holds that name, yet \<^verbatim>\<open>handlePrivateMessage\<close> finds the entry of
  the closed session, calls \<^verbatim>\<open>send\<close> on its socket and sends the echo to session 1.
\<close>

theorem private_message_to_closed_session:
  "run example_parse new_server
     [Connection 1, Message 1 auth_alice ''t1'' all_open, Connection 2,
      Message 2 auth_bob ''t2'' all_open, Close 2, Message 1 private_bob ''t3'' closed_2]
   = Inr ([(1, AuthRequest), (1, AuthSuccess ''Authentication successful'' []),
           (2, AuthRequest), (2, AuthSuccess ''Authentication successful'' []),
           (2, Chat \<lparr>msg_type = ''private'', sender = Some (JStr ''alice''),
                     content = Some (JStr ''secret''), timestamp = ''t3''\<rparr>),
           (1, Chat \<lparr>msg_type = ''private'', sender = Some (JStr ''alice''),
                     content = Some (JStr ''secret''), timestamp = ''t3''\<rparr>)],
          \<lparr>clients = [1], messageHistory = [],
           usernames = [(1, Some (JStr ''alice'')), (2, Some (JStr ''bob''))]\<rparr>)"
  by (simp add: ex_defs)

end
